theory Spec2Isabelle
  imports Main "HOL-Library.AList"
begin

section \<open>The header container of \<^verbatim>\<open>src/Headers.ts\<close>\<close>

text \<open>
  The class \<^verbatim>\<open>HeadersPolyfill\<close> keeps two private fields: \<^verbatim>\<open>headers\<close>, a plain
  JavaScript object created by the literal \<^verbatim>\<open>{}\<close> and used as a dictionary from
  normalized names to values, and \<^verbatim>\<open>names\<close>, a \<^verbatim>\<open>Map\<close> from normalized names to the
  last raw spelling. The model below follows the methods line by line. Strings are
  \<^typ>\<open>string\<close>; every name that normalization accepts is ASCII, so the difference
  between bytes and UTF-16 code units never shows in a key.
\<close>

subsection \<open>Errors and values\<close>

datatype error = InvalidHeaderName | InvalidHeaderValue | TypeError

text \<open>
  The values a property read can produce here: a string, \<^verbatim>\<open>null\<close>, \<^verbatim>\<open>undefined\<close>, or a
  member inherited from \<^verbatim>\<open>Object.prototype\<close> (a function, or the prototype object
  itself for \<^verbatim>\<open>__proto__\<close>), recorded by its property name.
\<close>

datatype js_value = JString string | JNull | JUndefined | JInherited string

definition truthy :: "js_value \<Rightarrow> bool" where
  "truthy v = (case v of JString s \<Rightarrow> s \<noteq> [] | JNull \<Rightarrow> False | JUndefined \<Rightarrow> False
     | JInherited m \<Rightarrow> True)"

text \<open>The operator \<^verbatim>\<open>x || null\<close>.\<close>

definition or_null :: "js_value \<Rightarrow> js_value" where
  "or_null v = (if truthy v then v else JNull)"

text \<open>
  String conversion, as a template literal and a property key perform it. The text of
  an inherited member is what V8 prints; \<^verbatim>\<open>append\<close> never converts one, because it
  reads a value only after \<^verbatim>\<open>has\<close> found an own property.
\<close>

definition js_to_string :: "js_value \<Rightarrow> string" where
  "js_to_string v = (case v of JString s \<Rightarrow> s | JNull \<Rightarrow> ''null'' | JUndefined \<Rightarrow> ''undefined''
     | JInherited m \<Rightarrow> (if m = ''__proto__'' then ''[object Object]''
                        else ''function '' @ m @ ''() { [native code] }''))"

subsection \<open>Plain objects used as dictionaries\<close>

text \<open>
  An object is the list of its own properties in creation order, keys distinct; its
  prototype is \<^verbatim>\<open>Object.prototype\<close>, whose members are listed here.
\<close>

definition object_prototype_names :: "string list" where
  "object_prototype_names =
     [''constructor'', ''__defineGetter__'', ''__defineSetter__'', ''hasOwnProperty'',
      ''__lookupGetter__'', ''__lookupSetter__'', ''isPrototypeOf'', ''propertyIsEnumerable'',
      ''toString'', ''valueOf'', ''__proto__'', ''toLocaleString'']"

definition own :: "(string \<times> 'v) list \<Rightarrow> string \<Rightarrow> bool" where
  "own obj k = (k \<in> set (map fst obj))"

text \<open>
  The read \<^verbatim>\<open>obj[k]\<close> of an object whose own values are strings: the own property if
  there is one, else the member of \<^verbatim>\<open>Object.prototype\<close>, else \<^verbatim>\<open>undefined\<close>.
\<close>

definition obj_get :: "(string \<times> string) list \<Rightarrow> string \<Rightarrow> js_value" where
  "obj_get obj k = (case map_of obj k of Some v \<Rightarrow> JString v
     | None \<Rightarrow> (if k \<in> set object_prototype_names then JInherited k else JUndefined))"

text \<open>
  The assignment \<^verbatim>\<open>obj[k] = v\<close> of a string: an own property is overwritten in place
  and a new one is created last. The key \<^verbatim>\<open>__proto__\<close> is the exception: unless the
  object already owns such a property the assignment reaches the accessor of
  \<^verbatim>\<open>Object.prototype\<close>, whose setter ignores a value that is neither an object nor
  \<^verbatim>\<open>null\<close>, and nothing is stored.
\<close>

definition obj_assign :: "(string \<times> string) list \<Rightarrow> string \<Rightarrow> string \<Rightarrow> (string \<times> string) list" where
  "obj_assign obj k v =
     (if k = ''__proto__'' \<and> \<not> own obj k then obj else AList.update k v obj)"

text \<open>
  The call \<^verbatim>\<open>obj.hasOwnProperty(k)\<close>: the method is looked up on the object first, so
  an own property of that name (a string here) is called and the call throws.
\<close>

definition hasOwnProperty :: "(string \<times> 'v) list \<Rightarrow> string \<Rightarrow> error + bool" where
  "hasOwnProperty obj k = (if own obj ''hasOwnProperty'' then Inl TypeError else Inr (own obj k))"

text \<open>
  Property order (OrdinaryOwnPropertyKeys): the keys that are array indices, a canonical
  decimal numeral below \<open>2^32 - 1\<close>, come first in ascending numeric order; every other
  key follows in creation order.
\<close>

definition is_digit :: "char \<Rightarrow> bool" where
  "is_digit c = (48 \<le> (of_char c :: nat) \<and> (of_char c :: nat) \<le> 57)"

definition index_value :: "string \<Rightarrow> int" where
  "index_value s = foldl (\<lambda>a c. 10 * a + (of_char c - 48)) 0 s"

definition is_array_index :: "string \<Rightarrow> bool" where
  "is_array_index s = (s \<noteq> [] \<and> list_all is_digit s \<and> (s = ''0'' \<or> hd s \<noteq> CHR ''0'')
     \<and> index_value s < 4294967295)"

definition own_entries :: "(string \<times> 'v) list \<Rightarrow> (string \<times> 'v) list" where
  "own_entries obj =
     sort_key (\<lambda>p. index_value (fst p)) (filter (\<lambda>p. is_array_index (fst p)) obj)
     @ filter (\<lambda>p. \<not> is_array_index (fst p)) obj"

text \<open>\<^verbatim>\<open>Object.keys\<close>, \<^verbatim>\<open>Object.getOwnPropertyNames\<close> and \<^verbatim>\<open>Object.values\<close>.\<close>

definition object_keys :: "(string \<times> 'v) list \<Rightarrow> string list" where
  "object_keys obj = map fst (own_entries obj)"

definition object_values :: "(string \<times> 'v) list \<Rightarrow> 'v list" where
  "object_values obj = map snd (own_entries obj)"

subsection \<open>Name and value normalization\<close>

text \<open>
  Modelled from the spec: the files \<^verbatim>\<open>utils/normalizeHeaderName\<close> and
  \<^verbatim>\<open>utils/normalizeHeaderValue\<close>, which \<^verbatim>\<open>Headers.ts\<close> imports, are missing. These are the
  character classes of section 4.2. Whitespace is space, tab, carriage return and line
  feed; the header-name token set is printable ASCII without the separators
  \<^verbatim>\<open>: ( ) < > @ , ; \ " / [ ] ? = { }\<close>; the disallowed control characters are the codes
  below 32 other than tab, and 127. Lower-casing acts on the letters A to Z.
\<close>

definition is_whitespace :: "char \<Rightarrow> bool" where
  "is_whitespace c = ((of_char c :: nat) \<in> {9, 10, 13, 32})"

definition is_line_break :: "char \<Rightarrow> bool" where
  "is_line_break c = ((of_char c :: nat) \<in> {10, 13})"

definition is_separator :: "char \<Rightarrow> bool" where
  "is_separator c =
     ((of_char c :: nat) \<in> {58, 40, 41, 60, 62, 64, 44, 59, 92, 34, 47, 91, 93, 63, 61, 123, 125})"

definition is_token_char :: "char \<Rightarrow> bool" where
  "is_token_char c = (33 \<le> (of_char c :: nat) \<and> (of_char c :: nat) \<le> 126 \<and> \<not> is_separator c)"

definition is_control :: "char \<Rightarrow> bool" where
  "is_control c = (((of_char c :: nat) < 32 \<and> (of_char c :: nat) \<noteq> 9) \<or> (of_char c :: nat) = 127)"

definition to_lower :: "char \<Rightarrow> char" where
  "to_lower c = (if 65 \<le> (of_char c :: nat) \<and> (of_char c :: nat) \<le> 90
     then char_of ((of_char c :: nat) + 32) else c)"

definition trim :: "string \<Rightarrow> string" where
  "trim s = rev (dropWhile is_whitespace (rev (dropWhile is_whitespace s)))"

fun collapse_line_breaks :: "bool \<Rightarrow> string \<Rightarrow> string" where
  "collapse_line_breaks in_break [] = []"
| "collapse_line_breaks in_break (c # cs) =
     (if is_line_break c
      then (if in_break then collapse_line_breaks True cs
            else CHR '' '' # collapse_line_breaks True cs)
      else c # collapse_line_breaks False cs)"

text \<open>
  Modelled from the spec: \<^verbatim>\<open>normalizeHeaderName\<close> (section 4.2) fails with
  \<^verbatim>\<open>InvalidHeaderName\<close> if the name is empty after trimming or contains a character
  outside the token set; otherwise it returns the trimmed, lower-cased name.
\<close>

definition normalizeHeaderName :: "string \<Rightarrow> error + string" where
  "normalizeHeaderName name =
     (if trim name = [] \<or> \<not> list_all is_token_char name then Inl InvalidHeaderName
      else Inr (map to_lower (trim name)))"

text \<open>
  Modelled from the spec: \<^verbatim>\<open>normalizeHeaderValue\<close> (section 4.2) strips leading and
  trailing whitespace, collapses every internal line-break sequence into one space, and
  fails with \<^verbatim>\<open>InvalidHeaderValue\<close> if a disallowed control character is left.
\<close>

definition normalizeHeaderValue :: "string \<Rightarrow> error + string" where
  "normalizeHeaderValue v =
     (let r = collapse_line_breaks False (trim v)
      in if list_ex is_control r then Inl InvalidHeaderValue else Inr r)"

subsection \<open>The class\<close>

text \<open>
  \<^verbatim>\<open>names\<close> is a \<^verbatim>\<open>Map\<close>: \<^verbatim>\<open>set\<close> overwrites in place or adds last, \<^verbatim>\<open>delete\<close> removes,
  \<^verbatim>\<open>get\<close> answers \<^verbatim>\<open>undefined\<close> for a missing key. No key is special in a \<^verbatim>\<open>Map\<close>.
\<close>

record HeadersPolyfill =
  headers :: "(string \<times> string) list"
  names :: "(string \<times> string) list"

definition empty_headers :: HeadersPolyfill where
  "empty_headers = \<lparr>headers = [], names = []\<rparr>"

definition map_get :: "(string \<times> string) list \<Rightarrow> string \<Rightarrow> js_value" where
  "map_get m k = (case map_of m k of Some r \<Rightarrow> JString r | None \<Rightarrow> JUndefined)"

text \<open>
  A method that reads returns \<open>error + value\<close>. A method that writes returns the
  exception it threw, if any, together with the fields as the call left them, so that
  what a failed call has already written stays visible.
\<close>

definition has :: "HeadersPolyfill \<Rightarrow> string \<Rightarrow> error + bool" where
  "has s name = (case normalizeHeaderName name of Inl e \<Rightarrow> Inl e
     | Inr k \<Rightarrow> hasOwnProperty (headers s) k)"

definition get :: "HeadersPolyfill \<Rightarrow> string \<Rightarrow> error + js_value" where
  "get s name = (case normalizeHeaderName name of Inl e \<Rightarrow> Inl e
     | Inr k \<Rightarrow> Inr (or_null (obj_get (headers s) k)))"

definition set_header :: "HeadersPolyfill \<Rightarrow> string \<Rightarrow> string \<Rightarrow> error option \<times> HeadersPolyfill" where
  "set_header s name val =
     (case normalizeHeaderName name of Inl e \<Rightarrow> (Some e, s)
      | Inr normalizedName \<Rightarrow>
          (case normalizeHeaderValue val of Inl e \<Rightarrow> (Some e, s)
           | Inr v \<Rightarrow>
               (None, s\<lparr>headers := obj_assign (headers s) normalizedName v,
                        names := AList.update normalizedName name (names s)\<rparr>)))"

definition append_header :: "HeadersPolyfill \<Rightarrow> string \<Rightarrow> string \<Rightarrow> error option \<times> HeadersPolyfill" where
  "append_header s name val =
     (case normalizeHeaderName name of Inl e \<Rightarrow> (Some e, s)
      | Inr normalizedName \<Rightarrow>
          (case has s normalizedName of Inl e \<Rightarrow> (Some e, s)
           | Inr True \<Rightarrow>
               (case get s normalizedName of Inl e \<Rightarrow> (Some e, s)
                | Inr g \<Rightarrow> set_header s name (js_to_string g @ '', '' @ val))
           | Inr False \<Rightarrow> set_header s name val))"

definition delete_header :: "HeadersPolyfill \<Rightarrow> string \<Rightarrow> error option \<times> HeadersPolyfill" where
  "delete_header s name =
     (case has s name of Inl e \<Rightarrow> (Some e, s)
      | Inr False \<Rightarrow> (None, s)
      | Inr True \<Rightarrow>
          (case normalizeHeaderName name of Inl e \<Rightarrow> (Some e, s)
           | Inr normalizedName \<Rightarrow>
               (None, s\<lparr>headers := AList.delete normalizedName (headers s),
                        names := AList.delete normalizedName (names s)\<rparr>)))"

text \<open>The generators, as the finite sequences they yield on an object nobody mutates meanwhile.\<close>

definition keys :: "HeadersPolyfill \<Rightarrow> string list" where
  "keys s = object_keys (headers s)"

definition values_headers :: "HeadersPolyfill \<Rightarrow> string list" where
  "values_headers s = object_values (headers s)"

fun entries_from :: "HeadersPolyfill \<Rightarrow> string list \<Rightarrow> error + (string \<times> js_value) list" where
  "entries_from s [] = Inr []"
| "entries_from s (name # rest) =
     (case get s name of Inl e \<Rightarrow> Inl e
      | Inr v \<Rightarrow> (case entries_from s rest of Inl e \<Rightarrow> Inl e
                 | Inr es \<Rightarrow> Inr ((name, v) # es)))"

definition entries :: "HeadersPolyfill \<Rightarrow> error + (string \<times> js_value) list" where
  "entries s = entries_from s (object_keys (headers s))"

definition all_headers :: "HeadersPolyfill \<Rightarrow> (string \<times> string) list" where
  "all_headers s = headers s"

text \<open>
  \<^verbatim>\<open>raw\<close> fills a fresh plain object. Its values are strings or \<^verbatim>\<open>null\<close>, so the key
  \<^verbatim>\<open>__proto__\<close> needs the whole rule: while the prototype is \<^verbatim>\<open>Object.prototype\<close> the
  setter stores nothing, and it replaces the prototype when the value is \<^verbatim>\<open>null\<close>;
  an object without prototype takes \<^verbatim>\<open>__proto__\<close> as an ordinary key. The flag says
  whether the prototype is still there.
\<close>

definition raw_assign :: "bool \<times> (string \<times> js_value) list \<Rightarrow> string \<Rightarrow> js_value
    \<Rightarrow> bool \<times> (string \<times> js_value) list" where
  "raw_assign acc k v =
     (case acc of (has_proto, obj) \<Rightarrow>
        (if k = ''__proto__'' \<and> has_proto \<and> \<not> own obj k
         then (v \<noteq> JNull, obj)
         else (has_proto, AList.update k v obj)))"

fun raw_from :: "HeadersPolyfill \<Rightarrow> (string \<times> js_value) list
    \<Rightarrow> bool \<times> (string \<times> js_value) list \<Rightarrow> bool \<times> (string \<times> js_value) list" where
  "raw_from s [] acc = acc"
| "raw_from s ((name, v) # rest) acc =
     raw_from s rest (raw_assign acc (js_to_string (map_get (names s) name)) v)"

definition raw :: "HeadersPolyfill \<Rightarrow> error + (string \<times> js_value) list" where
  "raw s = (case entries s of Inl e \<Rightarrow> Inl e
     | Inr es \<Rightarrow> Inr (snd (raw_from s es (True, []))))"

text \<open>
  \<^verbatim>\<open>forEach\<close>, as the list of the calls \<^verbatim>\<open>callback(value, name)\<close> it makes; the pairs are
  kept as (name, value).
\<close>

fun forEach_from :: "HeadersPolyfill \<Rightarrow> string list \<Rightarrow> error + (string \<times> js_value) list" where
  "forEach_from s [] = Inr []"
| "forEach_from s (name # rest) =
     (case hasOwnProperty (headers s) name of Inl e \<Rightarrow> Inl e
      | Inr b \<Rightarrow> (case forEach_from s rest of Inl e \<Rightarrow> Inl e
                 | Inr cs \<Rightarrow> Inr (if b then (name, obj_get (headers s) name) # cs else cs)))"

definition forEach :: "HeadersPolyfill \<Rightarrow> error + (string \<times> js_value) list" where
  "forEach s = forEach_from s (object_keys (headers s))"

subsection \<open>Construction\<close>

text \<open>
  The initializer shapes of the constructor: an object recognised as \<^verbatim>\<open>Headers\<close> or
  \<^verbatim>\<open>HeadersPolyfill\<close>, given by the (name, value) calls its \<^verbatim>\<open>forEach\<close> makes; an array
  of pairs; any other truthy value, a plain record given by its own properties in
  creation order; nothing. A value is a string or an array of strings.
\<close>

datatype init_value = Single string | Sequence "string list"

datatype headers_init =
    HeadersLike "(string \<times> string) list"
  | HeadersList "(string \<times> init_value) list"
  | HeadersObject "(string \<times> init_value) list"
  | Absent

text \<open>\<^verbatim>\<open>value.join(', ')\<close>.\<close>

fun join :: "string list \<Rightarrow> string" where
  "join [] = []"
| "join [v] = v"
| "join (v # w # vs) = v @ '', '' @ join (w # vs)"

definition value_string :: "init_value \<Rightarrow> string" where
  "value_string value = (case value of Sequence vs \<Rightarrow> join vs | Single v \<Rightarrow> v)"

text \<open>The two loops of the constructor; an exception leaves the loop.\<close>

fun append_calls :: "HeadersPolyfill \<Rightarrow> (string \<times> string) list \<Rightarrow> error option \<times> HeadersPolyfill" where
  "append_calls s [] = (None, s)"
| "append_calls s ((name, v) # rest) =
     (case append_header s name v of (Some e, s') \<Rightarrow> (Some e, s')
      | (None, s') \<Rightarrow> append_calls s' rest)"

fun append_values :: "HeadersPolyfill \<Rightarrow> (string \<times> init_value) list \<Rightarrow> error option \<times> HeadersPolyfill" where
  "append_values s [] = (None, s)"
| "append_values s ((name, value) # rest) =
     (case append_header s name (value_string value) of (Some e, s') \<Rightarrow> (Some e, s')
      | (None, s') \<Rightarrow> append_values s' rest)"

text \<open>A constructor that throws yields no object.\<close>

definition constructed :: "error option \<times> HeadersPolyfill \<Rightarrow> error + HeadersPolyfill" where
  "constructed r = (case r of (Some e, s) \<Rightarrow> Inl e | (None, s) \<Rightarrow> Inr s)"

definition constructor :: "headers_init \<Rightarrow> error + HeadersPolyfill" where
  "constructor init =
     (case init of
        HeadersLike initialHeaders \<Rightarrow> constructed (append_calls empty_headers initialHeaders)
      | HeadersList pairs \<Rightarrow> constructed (append_values empty_headers pairs)
      | HeadersObject obj \<Rightarrow> constructed (append_values empty_headers (own_entries obj))
      | Absent \<Rightarrow> Inr empty_headers)"

subsection \<open>Reachable states\<close>

text \<open>
  The states a program can hold: what the constructor returns, and what a call of
  \<^verbatim>\<open>set\<close>, \<^verbatim>\<open>append\<close> or \<^verbatim>\<open>delete\<close> that returns normally makes of such a state.
\<close>

inductive reachable :: "HeadersPolyfill \<Rightarrow> bool" where
  reachable_constructor: "constructor init = Inr s \<Longrightarrow> reachable s"
| reachable_set: "reachable s \<Longrightarrow> set_header s name v = (None, s') \<Longrightarrow> reachable s'"
| reachable_append: "reachable s \<Longrightarrow> append_header s name v = (None, s') \<Longrightarrow> reachable s'"
| reachable_delete: "reachable s \<Longrightarrow> delete_header s name = (None, s') \<Longrightarrow> reachable s'"

subsection \<open>Notions used in the statements\<close>



text \<open>
  The (name, value) pairs an initializer hands to \<^verbatim>\<open>append\<close>, in the order in which the
  constructor meets them.
\<close>

definition init_entries :: "headers_init \<Rightarrow> (string \<times> string) list" where
  "init_entries init =
     (case init of
        HeadersLike initialHeaders \<Rightarrow> initialHeaders
      | HeadersList pairs \<Rightarrow> map (\<lambda>(name, value). (name, value_string value)) pairs
      | HeadersObject obj \<Rightarrow> map (\<lambda>(name, value). (name, value_string value)) (own_entries obj)
      | Absent \<Rightarrow> [])"

text \<open>
  The spec's side of the construction equivalence (section 8): an empty map is
  constructed and \<^verbatim>\<open>append(name, value)\<close> is called for each pair in list order; a call
  that throws ends the program.
\<close>

definition sequential_appends :: "(string \<times> string) list \<Rightarrow> error + HeadersPolyfill" where
  "sequential_appends pairs =
     fold (\<lambda>(name, v) r. case r of Inl e \<Rightarrow> Inl e
                               | Inr s \<Rightarrow> constructed (append_header s name v))
       pairs (constructor Absent)"

text \<open>
  What every reachable state satisfies: the keys of each field are distinct; every
  key of \<^verbatim>\<open>headers\<close> is a key of \<^verbatim>\<open>names\<close>, and every key of \<^verbatim>\<open>names\<close> other than
  \<^verbatim>\<open>__proto__\<close> is a key of \<^verbatim>\<open>headers\<close>, which never owns \<^verbatim>\<open>__proto__\<close>; every entry of
  \<^verbatim>\<open>names\<close> maps the normalized form of a raw name to that raw name; no stored value
  holds a control character.
\<close>

definition invariant :: "HeadersPolyfill \<Rightarrow> bool" where
  "invariant s =
     (distinct (map fst (headers s)) \<and> distinct (map fst (names s))
      \<and> (\<forall>k \<in> set (map fst (headers s)). k \<in> set (map fst (names s)))
      \<and> (\<forall>k \<in> set (map fst (names s)). k = ''__proto__'' \<or> k \<in> set (map fst (headers s)))
      \<and> ''__proto__'' \<notin> set (map fst (headers s))
      \<and> (\<forall>(k, r) \<in> set (names s). normalizeHeaderName r = Inr k)
      \<and> (\<forall>(k, v) \<in> set (headers s). \<not> list_ex is_control v))"

section \<open>Properties\<close>

subsection \<open>Normalization\<close>

lemma dropWhile_none: "\<forall>c\<in>set xs. \<not> P c \<Longrightarrow> dropWhile P xs = xs"
  by (cases xs) auto

lemma token_not_whitespace: "is_token_char c \<Longrightarrow> \<not> is_whitespace c"
  by (auto simp: is_token_char_def is_whitespace_def)

lemma trim_token: "list_all is_token_char n \<Longrightarrow> trim n = n"
  by (simp add: trim_def dropWhile_none token_not_whitespace list_all_iff)

lemma to_lower_code: "(of_char (to_lower c) :: nat) =
    (if 65 \<le> (of_char c :: nat) \<and> (of_char c :: nat) \<le> 90 then of_char c + 32 else of_char c)"
  by (simp add: to_lower_def)

lemma to_lower_token: "is_token_char c \<Longrightarrow> is_token_char (to_lower c)"
  unfolding is_token_char_def is_separator_def to_lower_code by auto

lemma to_lower_idem: "to_lower (to_lower c) = to_lower c"
  by (rule of_char_eqI[where 'a = nat], subst to_lower_code) (simp add: to_lower_code)

lemma to_lower_not_O: "to_lower c \<noteq> CHR ''O''"
proof
  assume "to_lower c = CHR ''O''"
  then have "(of_char (to_lower c) :: nat) = 79" by simp
  then show False by (simp add: to_lower_code split: if_splits)
qed

lemma normalizeHeaderName_Inr:
  "normalizeHeaderName n = Inr k \<longleftrightarrow> n \<noteq> [] \<and> list_all is_token_char n \<and> k = map to_lower n"
  by (auto simp: normalizeHeaderName_def trim_token)


lemma normalizeHeaderName_idem: "normalizeHeaderName n = Inr k \<Longrightarrow> normalizeHeaderName k = Inr k"
  by (auto simp: normalizeHeaderName_Inr list_all_iff to_lower_token to_lower_idem)

lemma normalized_not_hasOwnProperty: "normalizeHeaderName n = Inr k \<Longrightarrow> k \<noteq> ''hasOwnProperty''"
proof
  assume a: "normalizeHeaderName n = Inr k" and b: "k = ''hasOwnProperty''"
  from b have "CHR ''O'' \<in> set k" by simp
  moreover from a have "k = map to_lower n" by (simp add: normalizeHeaderName_Inr)
  ultimately obtain c where "to_lower c = CHR ''O''" by auto
  then show False using to_lower_not_O by blast
qed








lemma normalizeHeaderValue_clean: "normalizeHeaderValue x = Inr v \<Longrightarrow> \<not> list_ex is_control v"
  by (auto simp: normalizeHeaderValue_def Let_def split: if_splits)

subsection \<open>A call that throws\<close>

lemma failed_set_header: "fst (set_header s name v) \<noteq> None \<Longrightarrow> snd (set_header s name v) = s"
  by (auto simp: set_header_def split: sum.splits)

text \<open>
  C10. Failure atomicity: when \<^verbatim>\<open>set\<close>, \<^verbatim>\<open>append\<close> or \<^verbatim>\<open>delete\<close> throws, both fields
  \<^verbatim>\<open>headers\<close> and \<^verbatim>\<open>names\<close> are as they were before the call. Every exception of these
  methods is thrown before the first write.
\<close>

theorem failed_mutation_leaves_fields:
  "(fst (set_header s name v) \<noteq> None \<longrightarrow> snd (set_header s name v) = s)
   \<and> (fst (append_header s name v) \<noteq> None \<longrightarrow> snd (append_header s name v) = s)
   \<and> (fst (delete_header s name) \<noteq> None \<longrightarrow> snd (delete_header s name) = s)"
proof (intro conjI impI)
  show "snd (set_header s name v) = s" if "fst (set_header s name v) \<noteq> None"
    using that by (rule failed_set_header)
  show "snd (append_header s name v) = s" if "fst (append_header s name v) \<noteq> None"
    using that by (auto simp: append_header_def failed_set_header split: sum.splits bool.splits)
  show "snd (delete_header s name) = s" if "fst (delete_header s name) \<noteq> None"
    using that by (auto simp: delete_header_def split: sum.splits bool.splits)
qed

theorem failed_mutation_leaves_fields_witness:
  "fst (set_header empty_headers ''bad name'' ''v'') = Some InvalidHeaderName
   \<and> snd (set_header empty_headers ''bad name'' ''v'') = empty_headers
   \<and> fst (append_header (snd (set_header empty_headers ''X'' ''a'')) ''x'' [CHR ''b'', CHR 0x00])
       = Some InvalidHeaderValue
   \<and> snd (append_header (snd (set_header empty_headers ''X'' ''a'')) ''x'' [CHR ''b'', CHR 0x00])
       = snd (set_header empty_headers ''X'' ''a'')
   \<and> fst (delete_header empty_headers ''bad name'') = Some InvalidHeaderName
   \<and> snd (delete_header empty_headers ''bad name'') = empty_headers"
proof -
  have a: "fst (set_header empty_headers ''bad name'' ''v'') = Some InvalidHeaderName"
    by code_simp
  have b: "fst (append_header (snd (set_header empty_headers ''X'' ''a'')) ''x'' [CHR ''b'', CHR 0x00])
       = Some InvalidHeaderValue"
    by code_simp
  have c: "fst (delete_header empty_headers ''bad name'') = Some InvalidHeaderName"
    by code_simp
  show ?thesis
    using a b c
      failed_mutation_leaves_fields [of empty_headers "''bad name''" "''v''"]
      failed_mutation_leaves_fields [of "snd (set_header empty_headers ''X'' ''a'')" "''x''" "[CHR ''b'', CHR 0x00]"]
    by simp
qed

subsection \<open>The invariant of reachable states\<close>

lemma set_update_subset: "set (AList.update k v al) \<subseteq> insert (k, v) (set al)"
  by (induction al) auto

lemma obj_assign_keys_subset: "set (map fst (obj_assign obj k v)) \<subseteq> insert k (set (map fst obj))"
  by (auto simp: obj_assign_def dom_update)

lemma obj_assign_entries_subset: "set (obj_assign obj k v) \<subseteq> insert (k, v) (set obj)"
  using set_update_subset[of k v obj] by (auto simp: obj_assign_def)

lemma obj_assign_keys:
  "fst ` set (obj_assign obj k v)
    = (if k = ''__proto__'' \<and> \<not> own obj k then fst ` set obj else insert k (fst ` set obj))"
  unfolding obj_assign_def by (auto simp: dom_update)

lemma distinct_obj_assign: "distinct (map fst obj) \<Longrightarrow> distinct (map fst (obj_assign obj k v))"
  by (simp add: obj_assign_def distinct_update)

lemma invariant_empty: "invariant empty_headers"
  by (simp add: invariant_def empty_headers_def)

lemma invariant_set_header:
  assumes "invariant s" and "set_header s name v = (None, s')"
  shows "invariant s'"
proof -
  from assms(2) obtain k w where k: "normalizeHeaderName name = Inr k"
    and w: "normalizeHeaderValue v = Inr w"
    and s': "s' = s\<lparr>headers := obj_assign (headers s) k w, names := AList.update k name (names s)\<rparr>"
    by (auto simp: set_header_def split: sum.splits)
  have w_clean: "\<not> list_ex is_control w"
    using w by (rule normalizeHeaderValue_clean)
  have d1: "distinct (map fst (headers s'))"
    using assms(1) by (simp add: s' invariant_def distinct_obj_assign)
  have d2: "distinct (map fst (names s'))"
    using assms(1) by (simp add: s' invariant_def distinct_update)
  have sub: "\<forall>x \<in> set (map fst (headers s')). x \<in> set (map fst (names s'))"
  proof
    fix x assume "x \<in> set (map fst (headers s'))"
    then have "x = k \<or> x \<in> set (map fst (headers s))"
      using obj_assign_keys_subset[of "headers s" k w] by (auto simp: s')
    moreover have "set (map fst (names s')) = insert k (set (map fst (names s)))"
      by (simp add: s' dom_update)
    ultimately show "x \<in> set (map fst (names s'))"
      using assms(1) by (auto simp: invariant_def)
  qed
  have nm: "\<forall>(x, r) \<in> set (names s'). normalizeHeaderName r = Inr x"
    using assms(1) k set_update_subset[of k name "names s"] by (auto simp: s' invariant_def)
  have cl: "\<forall>(x, y) \<in> set (headers s'). \<not> list_ex is_control y"
    using assms(1) w_clean obj_assign_entries_subset[of "headers s" k w]
    by (auto simp: s' invariant_def)
  have keys_names: "set (map fst (names s')) = insert k (set (map fst (names s)))"
    by (simp add: s' dom_update)
  have keys_headers: "set (map fst (headers s'))
      = (if k = ''__proto__'' then set (map fst (headers s)) else insert k (set (map fst (headers s))))"
  proof -
    have "\<not> own (headers s) ''__proto__''" using assms(1) by (auto simp: invariant_def own_def)
    then show ?thesis by (simp add: s' obj_assign_keys)
  qed
  have sup: "\<forall>x \<in> set (map fst (names s')). x = ''__proto__'' \<or> x \<in> set (map fst (headers s'))"
    unfolding keys_names keys_headers using assms(1) by (auto simp: invariant_def)
  have np: "''__proto__'' \<notin> set (map fst (headers s'))"
    unfolding keys_headers using assms(1) by (auto simp: invariant_def)
  from d1 d2 sub sup np nm cl show ?thesis by (simp add: invariant_def)
qed

lemma invariant_append_header:
  "invariant s \<Longrightarrow> append_header s name v = (None, s') \<Longrightarrow> invariant s'"
  by (auto simp: append_header_def split: sum.splits bool.splits intro: invariant_set_header)

lemma invariant_delete_header:
  assumes "invariant s" and "delete_header s name = (None, s')"
  shows "invariant s'"
proof (cases "s' = s")
  case True
  with assms(1) show ?thesis by simp
next
  case False
  with assms(2) obtain k where
    s': "s' = s\<lparr>headers := AList.delete k (headers s), names := AList.delete k (names s)\<rparr>"
    by (auto simp: delete_header_def split: sum.splits bool.splits)
  have "set (AList.delete k (names s)) \<subseteq> set (names s)"
    and "set (AList.delete k (headers s)) \<subseteq> set (headers s)"
    by (auto simp: AList.delete_eq)
  with assms(1) show ?thesis
    by (auto simp: s' invariant_def delete_keys distinct_removeAll)
qed

lemma invariant_append_calls:
  "invariant s \<Longrightarrow> append_calls s ps = (None, s') \<Longrightarrow> invariant s'"
proof (induction s ps rule: append_calls.induct)
  case (1 s)
  then show ?case by simp
next
  case (2 s name v rest)
  then show ?case
    by (auto split: prod.splits option.splits dest: invariant_append_header)
qed

lemma append_values_calls:
  "append_values s es = append_calls s (map (\<lambda>(name, value). (name, value_string value)) es)"
  by (induction s es rule: append_values.induct) (auto split: prod.splits option.splits)

lemma constructor_entries:
  "constructor init = constructed (append_calls empty_headers (init_entries init))"
  by (cases init) (simp_all add: constructor_def init_entries_def append_values_calls constructed_def)

lemma invariant_constructor: "constructor init = Inr s \<Longrightarrow> invariant s"
  using invariant_append_calls[OF invariant_empty]
  by (auto simp: constructor_entries constructed_def split: prod.splits option.splits)

lemma reachable_invariant: "reachable s \<Longrightarrow> invariant s"
  by (induction rule: reachable.induct)
    (auto intro: invariant_constructor invariant_set_header invariant_append_header
      invariant_delete_header)


lemma invariant_key_normalized:
  assumes "invariant s" and "k \<in> set (map fst (headers s))"
  shows "normalizeHeaderName k = Inr k"
proof -
  from assms have "k \<in> set (map fst (names s))" by (auto simp: invariant_def)
  then obtain r where "(k, r) \<in> set (names s)" by auto
  with assms(1) have "normalizeHeaderName r = Inr k" by (auto simp: invariant_def)
  then show ?thesis by (rule normalizeHeaderName_idem)
qed

lemma invariant_no_hasOwnProperty: "invariant s \<Longrightarrow> \<not> own (headers s) ''hasOwnProperty''"
  using invariant_key_normalized normalized_not_hasOwnProperty unfolding own_def by blast

lemma has_invariant:
  "invariant s \<Longrightarrow> normalizeHeaderName name = Inr k \<Longrightarrow> has s name = Inr (own (headers s) k)"
  by (simp add: has_def hasOwnProperty_def invariant_no_hasOwnProperty)


lemma own_map_of: "own obj k \<longleftrightarrow> (\<exists>w. map_of obj k = Some w)"
  by (metis own_def domIff dom_map_of_conv_image_fst list.set_map not_Some_eq)








subsection \<open>Construction\<close>



lemma fold_appends_Inl:
  "fold (\<lambda>(name, v) r. case r of Inl e \<Rightarrow> Inl e
      | Inr s \<Rightarrow> constructed (append_header s name v)) ps (Inl e) = Inl e"
  by (induction ps) (auto split: prod.splits)

lemma fold_appends_Inr:
  "fold (\<lambda>(name, v) r. case r of Inl e \<Rightarrow> Inl e
      | Inr s \<Rightarrow> constructed (append_header s name v)) ps (Inr s)
   = constructed (append_calls s ps)"
proof (induction ps arbitrary: s)
  case Nil
  show ?case by (simp add: constructed_def)
next
  case (Cons p ps)
  obtain name v where p: "p = (name, v)" by (cases p)
  obtain r s' where a: "append_header s name v = (r, s')" by (cases "append_header s name v")
  show ?case
  proof (cases r)
    case None
    with a p Cons show ?thesis by (simp add: constructed_def)
  next
    case (Some e)
    with a p show ?thesis by (simp add: constructed_def fold_appends_Inl)
  qed
qed

text \<open>
  C7. Construction from an ordered pair list is the same as sequential appends on an
  empty map: the constructor applied to a list of pairs returns exactly what
  \<^const>\<open>sequential_appends\<close> returns on the same pairs (an array value counting as its
  elements joined by a comma and a space), and throws the same error when an entry is
  rejected. In particular \<^verbatim>\<open>[["A","1"],["A","2"]]\<close> gives \<^verbatim>\<open>get("a") == "1, 2"\<close>.
\<close>

theorem construction_from_pair_list:
  "constructor (HeadersList pairs)
     = sequential_appends (map (\<lambda>(name, value). (name, value_string value)) pairs)
   \<and> constructor (HeadersList (map (\<lambda>(name, v). (name, Single v)) string_pairs))
     = sequential_appends string_pairs
   \<and> constructor (HeadersList [(''A'', Single ''1''), (''A'', Single ''2'')])
     = Inr \<lparr>headers = [(''a'', ''1, 2'')], names = [(''a'', ''A'')]\<rparr>
   \<and> get \<lparr>headers = [(''a'', ''1, 2'')], names = [(''a'', ''A'')]\<rparr> ''a'' = Inr (JString ''1, 2'')"
proof (intro conjI)
  have seq: "sequential_appends ps = constructed (append_calls empty_headers ps)" for ps
    by (simp add: sequential_appends_def constructor_def fold_appends_Inr)
  show "constructor (HeadersList pairs)
     = sequential_appends (map (\<lambda>(name, value). (name, value_string value)) pairs)"
    by (simp add: seq constructor_def append_values_calls)
  have "map (\<lambda>(name, value). (name, value_string value)) (map (\<lambda>(name, v). (name, Single v)) string_pairs)
      = string_pairs"
    by (induction string_pairs) (auto simp: value_string_def)
  then show "constructor (HeadersList (map (\<lambda>(name, v). (name, Single v)) string_pairs))
     = sequential_appends string_pairs"
    by (simp add: seq constructor_def append_values_calls)
  show "constructor (HeadersList [(''A'', Single ''1''), (''A'', Single ''2'')])
     = Inr \<lparr>headers = [(''a'', ''1, 2'')], names = [(''a'', ''A'')]\<rparr>"
    by code_simp
  show "get \<lparr>headers = [(''a'', ''1, 2'')], names = [(''a'', ''A'')]\<rparr> ''a'' = Inr (JString ''1, 2'')"
    by code_simp
qed




subsection \<open>Iteration order\<close>




lemma set_own_entries: "set (own_entries obj) = set obj"
  by (auto simp: own_entries_def)

lemma set_object_keys: "set (object_keys obj) = set (map fst obj)"
  by (simp add: object_keys_def set_own_entries)







lemma entries_from_names:
  "\<forall>k \<in> set ks. normalizeHeaderName k = Inr k
    \<Longrightarrow> entries_from s ks = Inr (map (\<lambda>k. (k, or_null (obj_get (headers s) k))) ks)"
  by (induction ks) (simp_all add: get_def)

lemma entries_invariant:
  assumes "invariant s"
  shows "entries s = Inr (map (\<lambda>k. (k, or_null (obj_get (headers s) k))) (keys s))"
  unfolding entries_def keys_def
  using assms by (intro entries_from_names) (simp add: set_object_keys invariant_key_normalized)






subsection \<open>Deletion\<close>

lemma raw_assign_keys:
  "fst ` set (snd (raw_assign acc k v)) \<subseteq> insert k (fst ` set (snd acc))"
  by (cases acc) (auto simp: raw_assign_def dom_update)

lemma raw_from_keys:
  "fst ` set (snd (raw_from s es acc))
    \<subseteq> fst ` set (snd acc) \<union> (\<lambda>n. js_to_string (map_get (names s) n)) ` fst ` set es"
proof (induction es arbitrary: acc)
  case Nil
  show ?case by simp
next
  case (Cons e es)
  obtain n v where e: "e = (n, v)" by (cases e)
  let ?f = "\<lambda>n. js_to_string (map_get (names s) n)"
  let ?acc = "raw_assign acc (?f n) v"
  have ih: "fst ` set (snd (raw_from s es ?acc)) \<subseteq> fst ` set (snd ?acc) \<union> ?f ` fst ` set es"
    by (rule Cons.IH)
  have step: "raw_from s (e # es) acc = raw_from s es ?acc" by (simp add: e)
  have img: "?f ` fst ` set (e # es) = insert (?f n) (?f ` fst ` set es)" by (simp add: e)
  show ?case unfolding step img using ih raw_assign_keys[of acc "?f n" v] by blast
qed

lemma raw_invariant:
  assumes "invariant s"
  shows "\<exists>es. raw s = Inr es
    \<and> (\<forall>r \<in> fst ` set es. \<exists>k \<in> set (map fst (headers s)). normalizeHeaderName r = Inr k)"
proof -
  let ?es = "map (\<lambda>k. (k, or_null (obj_get (headers s) k))) (keys s)"
  have raw: "raw s = Inr (snd (raw_from s ?es (True, [])))"
    by (simp add: raw_def entries_invariant[OF assms])
  have "\<exists>k \<in> set (map fst (headers s)). normalizeHeaderName r = Inr k"
    if "r \<in> fst ` set (snd (raw_from s ?es (True, [])))" for r
  proof -
    from that raw_from_keys[of s ?es "(True, [])"]
    obtain n where n: "n \<in> set (keys s)" and r: "r = js_to_string (map_get (names s) n)"
      by (auto simp: image_iff)
    from n have nh: "n \<in> set (map fst (headers s))" by (simp add: keys_def set_object_keys)
    with assms have "n \<in> set (map fst (names s))" by (auto simp: invariant_def)
    then obtain x where x: "map_of (names s) n = Some x"
      by (metis domIff dom_map_of_conv_image_fst list.set_map not_Some_eq)
    then have "(n, x) \<in> set (names s)" by (rule map_of_SomeD)
    with assms have "normalizeHeaderName x = Inr n" by (auto simp: invariant_def)
    moreover have "r = x" by (simp add: r map_get_def x js_to_string_def)
    ultimately show ?thesis using nh by auto
  qed
  with raw show ?thesis by blast
qed

text \<open>
  C9. Delete symmetry: on a reachable map and a valid name, \<^verbatim>\<open>delete\<close> changes nothing
  when \<^verbatim>\<open>has\<close> is false, and otherwise removes the entry of the normalized key from
  \<^verbatim>\<open>headers\<close> and from \<^verbatim>\<open>names\<close> and nothing else. After \<^verbatim>\<open>set(n, v); delete(n)\<close>,
  \<^verbatim>\<open>has(n)\<close> is false and no key of \<^verbatim>\<open>raw()\<close> is a spelling of \<^verbatim>\<open>n\<close>.
\<close>

theorem delete_symmetry:
  assumes "reachable s" and "normalizeHeaderName name = Inr k"
  shows "(has s name = Inr False \<longrightarrow> delete_header s name = (None, s))
    \<and> (has s name = Inr True \<longrightarrow>
          (\<exists>s'. delete_header s name = (None, s')
             \<and> map_of (headers s') = (map_of (headers s))(k := None)
             \<and> map_of (names s') = (map_of (names s))(k := None)))
    \<and> (\<forall>v s1. set_header s name v = (None, s1) \<longrightarrow>
          (\<exists>s2 es. delete_header s1 name = (None, s2) \<and> has s2 name = Inr False
             \<and> raw s2 = Inr es
             \<and> (\<forall>r \<in> fst ` set es. normalizeHeaderName r \<noteq> normalizeHeaderName name)))"
proof (intro conjI impI allI)
  show "delete_header s name = (None, s)" if "has s name = Inr False"
    using that by (simp add: delete_header_def)
  show "\<exists>s'. delete_header s name = (None, s')
      \<and> map_of (headers s') = (map_of (headers s))(k := None)
      \<and> map_of (names s') = (map_of (names s))(k := None)" if "has s name = Inr True"
    using that assms(2) by (simp add: delete_header_def delete_conv')
  show "\<exists>s2 es. delete_header s1 name = (None, s2) \<and> has s2 name = Inr False
      \<and> raw s2 = Inr es
      \<and> (\<forall>r \<in> fst ` set es. normalizeHeaderName r \<noteq> normalizeHeaderName name)"
    if set: "set_header s name v = (None, s1)" for v s1
  proof -
    from assms(1) set have r1: "reachable s1" by (rule reachable_set)
    then have inv1: "invariant s1" by (rule reachable_invariant)
    define s2 where "s2 = snd (delete_header s1 name)"
    have del: "delete_header s1 name = (None, s2)"
      and hs2: "headers s2 = (if own (headers s1) k then AList.delete k (headers s1) else headers s1)"
      unfolding s2_def using has_invariant[OF inv1 assms(2)] assms(2)
      by (cases "own (headers s1) k"; simp add: delete_header_def)+
    from r1 del have "reachable s2" by (rule reachable_delete)
    then have inv2: "invariant s2" by (rule reachable_invariant)
    have gone: "\<not> own (headers s2) k"
      using delete_notin_dom[of k "headers s1"] by (auto simp: hs2 own_def)
    then have has2: "has s2 name = Inr False"
      using has_invariant[OF inv2 assms(2)] by simp
    from raw_invariant[OF inv2] obtain es where raw: "raw s2 = Inr es"
      and keys: "\<forall>r \<in> fst ` set es. \<exists>k' \<in> set (map fst (headers s2)). normalizeHeaderName r = Inr k'"
      by blast
    have "normalizeHeaderName r \<noteq> normalizeHeaderName name" if "r \<in> fst ` set es" for r
    proof -
      from keys that obtain k' where "k' \<in> set (map fst (headers s2))"
        and "normalizeHeaderName r = Inr k'" by blast
      with gone assms(2) show ?thesis by (auto simp: own_def)
    qed
    with del has2 raw show ?thesis by blast
  qed
qed

theorem delete_symmetry_witness:
  "delete_header empty_headers ''X-Foo'' = (None, empty_headers)
   \<and> (\<exists>s'. delete_header \<lparr>headers = [(''x-foo'', ''a'')], names = [(''x-foo'', ''X-Foo'')]\<rparr> ''x-FOO''
              = (None, s')
          \<and> map_of (headers s') = (map_of [(''x-foo'', ''a'')])(''x-foo'' := None)
          \<and> map_of (names s') = (map_of [(''x-foo'', ''X-Foo'')])(''x-foo'' := None))
   \<and> (\<exists>s2 es. delete_header \<lparr>headers = [(''x-foo'', ''a'')], names = [(''x-foo'', ''X-Foo'')]\<rparr> ''X-Foo''
              = (None, s2)
          \<and> has s2 ''X-Foo'' = Inr False \<and> raw s2 = Inr es
          \<and> (\<forall>r \<in> fst ` set es. normalizeHeaderName r \<noteq> normalizeHeaderName ''X-Foo''))"
proof -
  let ?s1 = "\<lparr>headers = [(''x-foo'', ''a'')], names = [(''x-foo'', ''X-Foo'')]\<rparr>"
  have "constructor Absent = Inr empty_headers" by code_simp
  then have r0: "reachable empty_headers" by (rule reachable_constructor)
  have set: "set_header empty_headers ''X-Foo'' ''a'' = (None, ?s1)" by code_simp
  with r0 have r1: "reachable ?s1" by (rule reachable_set)
  have n: "normalizeHeaderName ''X-Foo'' = Inr ''x-foo''" by code_simp
  have n': "normalizeHeaderName ''x-FOO'' = Inr ''x-foo''" by code_simp
  have h0: "has empty_headers ''X-Foo'' = Inr False" by code_simp
  have h1: "has ?s1 ''x-FOO'' = Inr True" by code_simp
  from delete_symmetry[OF r0 n] h0 set delete_symmetry[OF r1 n'] h1
  show ?thesis by simp
qed

subsection \<open>The two fields in lockstep\<close>

text \<open>What does hold in every reachable state: the fields agree on every key but \<^verbatim>\<open>__proto__\<close>.\<close>

lemma lockstep_except_proto:
  "reachable s \<Longrightarrow> set (map fst (headers s)) = set (map fst (names s)) - {''__proto__''}"
  by (drule reachable_invariant, unfold invariant_def) blast

text \<open>
  C1. The lockstep invariant, which the code loses on the name \<^verbatim>\<open>__proto__\<close>: after
  construction and one successful \<^verbatim>\<open>set("__proto__", "v")\<close> the key is in \<^verbatim>\<open>names\<close> and not
  in \<^verbatim>\<open>headers\<close>, because the assignment to the plain object stores nothing.
\<close>

theorem lockstep_lost_on_proto:
  "constructor Absent = Inr empty_headers
   \<and> set_header empty_headers ''__proto__'' ''v''
       = (None, \<lparr>headers = [], names = [(''__proto__'', ''__proto__'')]\<rparr>)
   \<and> set (map fst (headers (snd (set_header empty_headers ''__proto__'' ''v''))))
       \<noteq> set (map fst (names (snd (set_header empty_headers ''__proto__'' ''v''))))"
  by code_simp

subsection \<open>Lookup\<close>

text \<open>
  What does hold: a stored value that is not empty is found under every spelling of a
  name other than \<^verbatim>\<open>__proto__\<close>, and an absent name that \<^verbatim>\<open>Object.prototype\<close> does not
  have answers \<^verbatim>\<open>null\<close>.
\<close>

lemma get_after_set_header:
  assumes "normalizeHeaderName n1 = Inr k" and "normalizeHeaderName n2 = Inr k"
    and "normalizeHeaderValue v = Inr w" and "k \<noteq> ''__proto__''" and "w \<noteq> []"
  shows "get (snd (set_header s n1 v)) n2 = Inr (JString w)"
  using assms
  by (simp add: set_header_def get_def obj_assign_def obj_get_def update_conv' or_null_def truthy_def)

lemma get_absent:
  assumes "normalizeHeaderName name = Inr k" and "\<not> own (headers s) k"
    and "k \<notin> set object_prototype_names"
  shows "get s name = Inr JNull"
  using assms by (auto simp: get_def obj_get_def own_map_of or_null_def truthy_def split: option.splits)

text \<open>
  C2. Case-insensitive lookup, which the code misses for two inputs: after
  \<^verbatim>\<open>set("Accept", "")\<close> the stored form of the value is the empty string and
  \<^verbatim>\<open>get("ACCEPT")\<close> answers \<^verbatim>\<open>null\<close>; after \<^verbatim>\<open>set("__proto__", "v")\<close>, \<^verbatim>\<open>get("__PROTO__")\<close>
  answers the prototype object.
\<close>

theorem get_after_set_empty_value:
  "normalizeHeaderValue '''' = Inr ''''
   \<and> set_header empty_headers ''Accept'' ''''
       = (None, \<lparr>headers = [(''accept'', '''')], names = [(''accept'', ''Accept'')]\<rparr>)
   \<and> get (snd (set_header empty_headers ''Accept'' '''')) ''ACCEPT'' = Inr JNull
   \<and> get (snd (set_header empty_headers ''__proto__'' ''v'')) ''__PROTO__''
       = Inr (JInherited ''__proto__'')"
  by code_simp

text \<open>
  C4. \<^verbatim>\<open>get\<close> against storage: with the empty string stored for \<^verbatim>\<open>x\<close>, \<^verbatim>\<open>has\<close> is true
  and \<^verbatim>\<open>values\<close> yields the empty string, yet \<^verbatim>\<open>get\<close> answers \<^verbatim>\<open>null\<close>; and for the absent
  name \<^verbatim>\<open>constructor\<close>, \<^verbatim>\<open>get\<close> answers the inherited function and not \<^verbatim>\<open>null\<close>.
\<close>

theorem get_of_empty_value_and_of_inherited_name:
  "has (snd (set_header empty_headers ''X'' '''')) ''X'' = Inr True
   \<and> values_headers (snd (set_header empty_headers ''X'' '''')) = ['''']
   \<and> get (snd (set_header empty_headers ''X'' '''')) ''X'' = Inr JNull
   \<and> has empty_headers ''constructor'' = Inr False
   \<and> get empty_headers ''constructor'' = Inr (JInherited ''constructor'')"
  by code_simp

subsection \<open>Append\<close>

text \<open>
  C3. Append merge semantics. The example of the claim holds: \<^verbatim>\<open>append("X","a")\<close> then
  \<^verbatim>\<open>append("x","b")\<close> gives \<^verbatim>\<open>"a, b"\<close>. With the empty string stored, \<^verbatim>\<open>append("x","b")\<close>
  stores \<^verbatim>\<open>"null, b"\<close> and not the stored value followed by \<^verbatim>\<open>", b"\<close>; and
  \<^verbatim>\<open>append("__proto__","a")\<close> on an empty map stores no value.
\<close>

theorem append_onto_empty_value:
  "get (snd (append_header (snd (append_header empty_headers ''X'' ''a'')) ''x'' ''b'')) ''X''
       = Inr (JString ''a, b'')
   \<and> append_header empty_headers ''X'' ''''
       = (None, \<lparr>headers = [(''x'', '''')], names = [(''x'', ''X'')]\<rparr>)
   \<and> append_header \<lparr>headers = [(''x'', '''')], names = [(''x'', ''X'')]\<rparr> ''x'' ''b''
       = (None, \<lparr>headers = [(''x'', ''null, b'')], names = [(''x'', ''x'')]\<rparr>)
   \<and> get \<lparr>headers = [(''x'', ''null, b'')], names = [(''x'', ''x'')]\<rparr> ''X''
       = Inr (JString ''null, b'')
   \<and> append_header empty_headers ''__proto__'' ''a''
       = (None, \<lparr>headers = [], names = [(''__proto__'', ''__proto__'')]\<rparr>)"
  by code_simp

subsection \<open>Raw names\<close>

text \<open>
  What does hold: in a reachable state \<^verbatim>\<open>raw()\<close> returns, and for every stored header it
  has exactly one key that is a spelling of the header, the spelling recorded in
  \<^verbatim>\<open>names\<close>, mapped to the stored value when that value is not empty.
\<close>

lemma map_of_unique_key:
  assumes "k \<in> set ns" and "\<forall>n \<in> set ns. f n = f k \<longrightarrow> n = k"
  shows "map_of (map (\<lambda>n. (f n, g n)) ns) (f k) = Some (g k)"
  using assms by (induction ns) auto

lemma raw_from_lookup:
  assumes "\<forall>n \<in> fst ` set es. js_to_string (map_get (names s) n) \<noteq> ''__proto__''"
  shows "map_of (snd (raw_from s es acc)) r
    = (case map_of (rev (map (\<lambda>(n, v). (js_to_string (map_get (names s) n), v)) es)) r of
         Some v \<Rightarrow> Some v | None \<Rightarrow> map_of (snd acc) r)"
  using assms
proof (induction es arbitrary: acc)
  case Nil
  show ?case by simp
next
  case (Cons e es)
  obtain n v where e: "e = (n, v)" by (cases e)
  obtain hp obj where acc: "acc = (hp, obj)" by (cases acc)
  let ?f = "\<lambda>n. js_to_string (map_get (names s) n)"
  from Cons.prems have np: "?f n \<noteq> ''__proto__''" by (simp add: e)
  then have step: "raw_from s (e # es) acc = raw_from s es (hp, AList.update (?f n) v obj)"
    by (simp add: e acc raw_assign_def)
  from Cons.prems have "\<forall>n \<in> fst ` set es. ?f n \<noteq> ''__proto__''" by simp
  from Cons.IH[OF this, of "(hp, AList.update (?f n) v obj)"]
  show ?case unfolding step
    by (simp add: e acc update_conv' map_add_def split: option.splits)
qed

lemma raw_entry:
  assumes inv: "invariant s" and h: "map_of (headers s) k = Some w"
    and nm: "map_of (names s) k = Some r"
  shows "\<exists>es. raw s = Inr es \<and> map_of es r = Some (if w = [] then JNull else JString w)
    \<and> (\<forall>r' \<in> fst ` set es. normalizeHeaderName r' = Inr k \<longrightarrow> r' = r)"
proof -
  let ?f = "\<lambda>n. js_to_string (map_get (names s) n)"
  let ?g = "\<lambda>n. or_null (obj_get (headers s) n)"
  let ?es = "map (\<lambda>n. (n, ?g n)) (keys s)"
  have raw: "raw s = Inr (snd (raw_from s ?es (True, [])))"
    by (simp add: raw_def entries_invariant[OF inv])
  have spelled: "normalizeHeaderName (?f n) = Inr n" if "n \<in> set (keys s)" for n
  proof -
    from that have "n \<in> set (map fst (headers s))" by (simp add: keys_def set_object_keys)
    with inv have "n \<in> set (map fst (names s))" unfolding invariant_def by blast
    then obtain x where x: "map_of (names s) n = Some x"
      by (metis domIff dom_map_of_conv_image_fst list.set_map not_Some_eq)
    then have "(n, x) \<in> set (names s)" by (rule map_of_SomeD)
    with inv have "normalizeHeaderName x = Inr n" unfolding invariant_def by blast
    then show ?thesis by (simp add: map_get_def x js_to_string_def)
  qed
  have k: "k \<in> set (keys s)"
    using h by (auto simp: keys_def set_object_keys dest: map_of_SomeD intro: rev_image_eqI)
  have fk: "?f k = r" by (simp add: map_get_def nm js_to_string_def)
  have no_proto: "\<forall>n \<in> fst ` set ?es. ?f n \<noteq> ''__proto__''"
  proof
    fix n assume "n \<in> fst ` set ?es"
    then have n: "n \<in> set (keys s)" by (auto simp: image_iff)
    show "?f n \<noteq> ''__proto__''"
    proof
      assume "?f n = ''__proto__''"
      with spelled[OF n] have "normalizeHeaderName ''__proto__'' = Inr n" by simp
      moreover have "normalizeHeaderName ''__proto__'' = Inr ''__proto__''" by code_simp
      ultimately have "n = ''__proto__''" by simp
      with n inv show False unfolding invariant_def by (simp add: keys_def set_object_keys)
    qed
  qed
  have uniq: "\<forall>n \<in> set (rev (keys s)). ?f n = ?f k \<longrightarrow> n = k"
    using spelled k by (metis Inl_Inr_False sum.inject(2) set_rev)
  have "map_of (rev (map (\<lambda>(n, v). (?f n, v)) ?es)) (?f k) = Some (?g k)"
    using map_of_unique_key[of k "rev (keys s)" ?f ?g] k uniq
    by (simp add: rev_map comp_def)
  then have "map_of (snd (raw_from s ?es (True, []))) r = Some (?g k)"
    using raw_from_lookup[OF no_proto, of "(True, [])" r] by (simp add: fk)
  moreover have "?g k = (if w = [] then JNull else JString w)"
    by (simp add: obj_get_def h or_null_def truthy_def)
  moreover have "r' = r" if "r' \<in> fst ` set (snd (raw_from s ?es (True, [])))"
    and "normalizeHeaderName r' = Inr k" for r'
  proof -
    from that(1) raw_from_keys[of s ?es "(True, [])"]
    obtain n where n: "n \<in> set (keys s)" and r': "r' = ?f n" by (auto simp: image_iff)
    from spelled[OF n] that(2) r' have "n = k" by simp
    with r' fk show ?thesis by simp
  qed
  ultimately show ?thesis using raw by auto
qed

text \<open>
  C5. Raw-name tracking. The example of the claim holds: after \<^verbatim>\<open>append("X-Foo","a")\<close>
  and \<^verbatim>\<open>append("x-foo","b")\<close>, \<^verbatim>\<open>raw()\<close> maps \<^verbatim>\<open>x-foo\<close> to \<^verbatim>\<open>"a, b"\<close>. But after
  \<^verbatim>\<open>set("X-Foo","")\<close>, \<^verbatim>\<open>raw()\<close> maps \<^verbatim>\<open>X-Foo\<close> to \<^verbatim>\<open>null\<close> and not to the stored value, and
  after two appends on \<^verbatim>\<open>__proto__\<close> under two spellings \<^verbatim>\<open>raw()\<close> has no entry at all.
\<close>

theorem raw_of_empty_value_and_of_proto:
  "raw (snd (append_header (snd (append_header empty_headers ''X-Foo'' ''a'')) ''x-foo'' ''b''))
       = Inr [(''x-foo'', JString ''a, b'')]
   \<and> raw (snd (set_header empty_headers ''X-Foo'' '''')) = Inr [(''X-Foo'', JNull)]
   \<and> append_header (snd (append_header empty_headers ''__proto__'' ''a'')) ''__PROTO__'' ''b''
       = (None, \<lparr>headers = [], names = [(''__proto__'', ''__PROTO__'')]\<rparr>)
   \<and> raw \<lparr>headers = [], names = [(''__proto__'', ''__PROTO__'')]\<rparr> = Inr []"
  by code_simp

end
